theory Spec2Isabelle
  imports Complex_Main "HOL-Library.Log_Nat" "HOL-Library.AList"
begin

section \<open>Python values, exceptions and results\<close>

text \<open>
  The values that flow through \<^verbatim>\<open>utils/core/client.py\<close>: integers (unbounded), strings,
  \<^verbatim>\<open>None\<close> and dictionaries (association lists, in insertion order). \<open>VFStr\<close> is an
  f-string built by the client itself: an ASCII rendering of its literal part and the
  values interpolated into it.
\<close>

datatype pyval =
    VInt int
  | VStr string
  | VNone
  | VDict "(string \<times> pyval) list"
  | VFStr string "pyval list"

type_synonym dict = "(string \<times> pyval) list"

text \<open>\<^verbatim>\<open>d.get(k)\<close>: the value stored under \<open>k\<close>, \<^verbatim>\<open>None\<close> when the key is missing.\<close>

definition dict_get :: "dict \<Rightarrow> string \<Rightarrow> pyval" where
  "dict_get d k = (case map_of d k of None \<Rightarrow> VNone | Some v \<Rightarrow> v)"

text \<open>
  An exception is its class and its \<^verbatim>\<open>args\<close> tuple. \<open>OtherException\<close> carries the name of
  any class that is none of the ones the client distinguishes.
\<close>

datatype exc_class =
    TransactionNotFound
  | TimeExhausted
  | OverflowError
  | ZeroDivisionError
  | IndexError
  | OtherException string

datatype exc = Exc (cls: exc_class) (args: "pyval list")

text \<open>
  The result of \<^verbatim>\<open>get_normalize_error\<close> is either a value taken out of the error payload
  or the exception itself.
\<close>

datatype normalized = NVal pyval | NExc exc

text \<open>
  \<^verbatim>\<open>BlockchainException(f'{x}')\<close>: the chain-communication error. Its text is the rendering
  of the normalized error \<open>x\<close>, which the model keeps as \<open>x\<close> itself.
\<close>

datatype error = BlockchainException normalized

text \<open>
  What \<^verbatim>\<open>send_transaction\<close> returns: \<^verbatim>\<open>True\<close>, the transaction hash, or a
  \<^verbatim>\<open>SoftwareException\<close> object (returned, not raised).
\<close>

datatype retval = RTrue | RHash string | RSoftwareException pyval

text \<open>
  The polling loop is \<^verbatim>\<open>while True\<close>. A run is given the receipt lookups of a finite
  stretch of time; it has either terminated within them, or it is still polling, with the
  \<^verbatim>\<open>total_time\<close> it has accumulated.
\<close>

datatype 'a run = Polling int | Terminated 'a

definition bind_exc :: "exc + 'a \<Rightarrow> ('a \<Rightarrow> exc + 'b) \<Rightarrow> exc + 'b" where
  "bind_exc m f = (case m of Inl e \<Rightarrow> Inl e | Inr x \<Rightarrow> f x)"

section \<open>Floating point as the code uses it\<close>

text \<open>
  The client computes \<^verbatim>\<open>int(x * 1.5)\<close> and \<^verbatim>\<open>int(round(s / d))\<close> on integers: the
  intermediate values are IEEE 754 doubles. A finite double is modelled by the rational it
  denotes; \<open>to_double\<close> rounds a rational to the nearest double, ties to the even
  significand, with 53 significant bits, gradual underflow below \<open>2 powi (- 1022)\<close>, and
  \<open>None\<close> when the rounded magnitude reaches \<open>2 ^ 1024\<close> (out of range). With \<open>e\<close> the
  binary exponent of \<open>q\<close> and \<open>m\<close> the rounded significand, \<open>\<bar>m\<bar> \<le> 2 ^ 53\<close>, so the
  rounded magnitude \<open>\<bar>m\<bar> * 2 powi (e - 52)\<close> stays below \<open>2 ^ 1024\<close> exactly when
  \<open>e < 1023\<close>, or \<open>e = 1023\<close> and \<open>\<bar>m\<bar> < 2 ^ 53\<close>.
\<close>

definition round_half_even :: "rat \<Rightarrow> int" where
  "round_half_even x =
     (let f = \<lfloor>x\<rfloor>; r = x - of_int f in
      if r < 1 / 2 then f else if 1 / 2 < r then f + 1 else if even f then f else f + 1)"

text \<open>The binary exponent of a non-zero rational: \<open>2 powi e \<le> \<bar>q\<bar> < 2 powi (e + 1)\<close>.\<close>

definition rat_exponent :: "rat \<Rightarrow> int" where
  "rat_exponent q =
     (let (a, b) = quotient_of \<bar>q\<bar>; n = bitlen a - bitlen b in
      if 2 powi n \<le> \<bar>q\<bar> then n else n - 1)"

definition to_double :: "rat \<Rightarrow> rat option" where
  "to_double q =
     (if q = 0 then Some 0
      else let e = max (rat_exponent q) (- 1022); u = 2 powi (e - 52);
               m = round_half_even (q / u)
           in if e < 1023 then Some (of_int m * u)
              else if e = 1023 \<and> \<bar>m\<bar> < 2 ^ 53 then Some (of_int m * u)
              else None)"

text \<open>\<^verbatim>\<open>float(x)\<close> of an integer, as done implicitly by \<^verbatim>\<open>x * 1.5\<close>.\<close>

definition py_float_of_int :: "int \<Rightarrow> exc + rat" where
  "py_float_of_int x =
     (case to_double (of_int x) of
        None \<Rightarrow> Inl (Exc OverflowError [VStr ''int too large to convert to float''])
      | Some y \<Rightarrow> Inr y)"

text \<open>\<^verbatim>\<open>int(y)\<close> of a finite float: truncation towards zero.\<close>

definition py_int_of_float :: "rat \<Rightarrow> int" where
  "py_int_of_float y = (if 0 \<le> y then \<lfloor>y\<rfloor> else \<lceil>y\<rceil>)"

text \<open>
  \<^verbatim>\<open>int(x * 1.5)\<close> for an integer \<open>x\<close>. A product out of range is the float infinity,
  which \<^verbatim>\<open>int\<close> refuses.
\<close>

definition int_times_1_5 :: "int \<Rightarrow> exc + int" where
  "int_times_1_5 x =
     bind_exc (py_float_of_int x) (\<lambda>f.
       case to_double (f * (3 / 2)) of
         None \<Rightarrow> Inl (Exc OverflowError [VStr ''cannot convert float infinity to integer''])
       | Some p \<Rightarrow> Inr (py_int_of_float p))"

text \<open>\<^verbatim>\<open>a / b\<close> on integers: true division, correctly rounded.\<close>

definition true_divide :: "int \<Rightarrow> int \<Rightarrow> exc + rat" where
  "true_divide a b =
     (if b = 0 then Inl (Exc ZeroDivisionError [VStr ''division by zero''])
      else case to_double (of_int a / of_int b) of
             None \<Rightarrow> Inl (Exc OverflowError [VStr ''integer division result too large for a float''])
           | Some y \<Rightarrow> Inr y)"

text \<open>\<^verbatim>\<open>round(y)\<close> of a float with no digits argument: an integer, ties to even.\<close>

definition py_round :: "rat \<Rightarrow> int" where
  "py_round y = round_half_even y"

section \<open>The client and the chain it talks to\<close>

record Network =
  rpc :: "string list"
  chain_id :: int
  explorer :: string
  eip1559_support :: bool

text \<open>
  \<open>self_rpc\<close> is the attribute \<^verbatim>\<open>self.rpc\<close>; \<open>w3\<close> is the endpoint of the provider inside
  \<^verbatim>\<open>self.w3\<close>, the endpoint every request goes to.
\<close>

record Client =
  network :: Network
  self_rpc :: string
  w3 :: string
  private_key :: string
  address :: string

text \<open>
  The answers of \<^verbatim>\<open>self.w3.eth\<close> during one call. \<open>fee_history\<close> is the
  \<^verbatim>\<open>"reward"\<close> entry of \<^verbatim>\<open>fee_history(25, 'latest', [20.0])\<close>;
  \<open>get_transaction_receipt\<close> lists the outcomes of the successive lookups of a hash.
\<close>

datatype response = Returns dict | Raises exc

record eth =
  get_transaction_count :: "string \<Rightarrow> exc + int"
  gas_price :: "exc + int"
  fee_history :: "exc + int list list"
  estimate_gas :: "dict \<Rightarrow> exc + int"
  sign_transaction :: "dict \<Rightarrow> string \<Rightarrow> exc + string"
  send_raw_transaction :: "string \<Rightarrow> exc + string"
  get_transaction_receipt :: "string \<Rightarrow> response list"

section \<open>Error normalization\<close>

text \<open>
  \<^verbatim>\<open>get_normalize_error\<close>: when \<^verbatim>\<open>error.args[0]\<close> is a dictionary, its
  \<^verbatim>\<open>'message'\<close> entry (the error itself when there is none); otherwise, and when
  \<^verbatim>\<open>args\<close> is empty (the \<^verbatim>\<open>IndexError\<close> is swallowed), the error itself.
\<close>

definition get_normalize_error :: "exc \<Rightarrow> normalized" where
  "get_normalize_error error =
     (case args error of
        [] \<Rightarrow> NExc error
      | a # _ \<Rightarrow>
          (case a of
             VDict d \<Rightarrow> (case map_of d ''message'' of None \<Rightarrow> NExc error | Some m \<Rightarrow> NVal m)
           | _ \<Rightarrow> NExc error))"

section \<open>Endpoint selection\<close>

text \<open>
  \<^verbatim>\<open>random.choice(seq)\<close> with the random draw \<open>r\<close> made explicit: every element can be
  drawn, and an empty sequence raises \<^verbatim>\<open>IndexError\<close>.
\<close>

definition random_choice :: "nat \<Rightarrow> 'a list \<Rightarrow> exc + 'a" where
  "random_choice r xs =
     (if xs = [] then Inl (Exc IndexError [VStr ''Cannot choose from an empty sequence''])
      else Inr (xs ! (r mod length xs)))"

text \<open>The part of \<^verbatim>\<open>__init__\<close> that picks the endpoint.\<close>

definition init_client :: "nat \<Rightarrow> Network \<Rightarrow> string \<Rightarrow> string \<Rightarrow> exc + Client" where
  "init_client r net key addr =
     bind_exc (random_choice r (rpc net)) (\<lambda>e.
       Inr \<lparr>network = net, self_rpc = e, w3 = e, private_key = key, address = addr\<rparr>)"

datatype log = LogWarning | LogSuccess | LogError

text \<open>\<^verbatim>\<open>change_rpc\<close> returns nothing: its effects are the log lines and the new \<open>w3\<close>.\<close>

definition change_rpc :: "nat \<Rightarrow> Client \<Rightarrow> exc + (log list \<times> Client)" where
  "change_rpc r self =
     (if length (rpc (network self)) \<noteq> 1 then
        (let rpcs_list = filter (\<lambda>x. x \<noteq> self_rpc self) (rpc (network self)) in
         bind_exc (random_choice r rpcs_list) (\<lambda>new_rpc.
           Inr ([LogWarning, LogSuccess], self\<lparr>w3 := new_rpc\<rparr>)))
      else Inr ([LogWarning, LogError], self))"

section \<open>Fee estimation and the transaction builder\<close>

text \<open>
  \<^verbatim>\<open>[fee[0] for fee in fee_history["reward"] if fee[0] != 0]\<close>; an empty entry raises
  \<^verbatim>\<open>IndexError\<close>.
\<close>

fun non_empty_block_priority_fees :: "int list list \<Rightarrow> exc + int list" where
  "non_empty_block_priority_fees [] = Inr []"
| "non_empty_block_priority_fees ([] # fees) =
     Inl (Exc IndexError [VStr ''list index out of range''])"
| "non_empty_block_priority_fees ((x # xs) # fees) =
     bind_exc (non_empty_block_priority_fees fees) (\<lambda>rest.
       Inr (if x \<noteq> 0 then x # rest else rest))"

definition get_priotiry_fee :: "eth \<Rightarrow> exc + int" where
  "get_priotiry_fee e =
     bind_exc (fee_history e) (\<lambda>reward.
     bind_exc (non_empty_block_priority_fees reward) (\<lambda>fees.
       let divisor_priority = max (int (length fees)) 1 in
       bind_exc (true_divide (sum_list fees) divisor_priority) (\<lambda>q.
         Inr (py_round q))))"

definition prepare_transaction :: "Client \<Rightarrow> eth \<Rightarrow> int \<Rightarrow> error + dict" where
  "prepare_transaction self e val =
     (case
        bind_exc (get_transaction_count e (address self)) (\<lambda>nonce.
          let tx_params =
                [(''from'', VStr (address self)), (''nonce'', VInt nonce),
                 (''value'', VInt val), (''chainId'', VInt (chain_id (network self)))]
          in
          if eip1559_support (network self) then
            bind_exc (gas_price e) (\<lambda>base_fee.
            bind_exc (get_priotiry_fee e) (\<lambda>max_priority_fee_per_gas.
              let max_fee_per_gas = base_fee + max_priority_fee_per_gas;
                  tx_params1 =
                    AList.update ''maxPriorityFeePerGas'' (VInt max_priority_fee_per_gas) tx_params
              in
              bind_exc (int_times_1_5 max_fee_per_gas) (\<lambda>m.
                Inr (AList.update ''type'' (VStr ''0x2'')
                       (AList.update ''maxFeePerGas'' (VInt m) tx_params1)))))
          else
            bind_exc (gas_price e) (\<lambda>gp.
            bind_exc (int_times_1_5 gp) (\<lambda>g.
              Inr (AList.update ''gasPrice'' (VInt g) tx_params))))
      of
        Inl error \<Rightarrow> Inl (BlockchainException (get_normalize_error error))
      | Inr tx_params \<Rightarrow> Inr tx_params)"

section \<open>Submission and the confirmation poller\<close>

text \<open>
  The \<^verbatim>\<open>while True\<close> loop of \<^verbatim>\<open>send_transaction\<close>, one receipt lookup per iteration.
  The exception raised from inside the \<^verbatim>\<open>except TransactionNotFound\<close> handler leaves the
  loop; every other exception of a lookup is caught by the handlers of the inner
  \<^verbatim>\<open>try\<close>.
\<close>

fun poll_loop ::
  "Client \<Rightarrow> string \<Rightarrow> bool \<Rightarrow> int \<Rightarrow> int \<Rightarrow> int \<Rightarrow> response list \<Rightarrow> (exc + retval) run"
where
  "poll_loop self tx_hash need_hash poll_latency timeout total_time [] = Polling total_time"
| "poll_loop self tx_hash need_hash poll_latency timeout total_time (r # rs) =
     (case r of
        Returns receipts \<Rightarrow>
          (let status = dict_get receipts ''status'' in
           if status = VInt 1 then
             Terminated (Inr (if need_hash then RHash tx_hash else RTrue))
           else if status = VNone then
             poll_loop self tx_hash need_hash poll_latency timeout total_time rs
           else
             Terminated (Inr (RSoftwareException
               (VFStr ''Transaction failed: {explorer}tx/{tx_hash}''
                  [VStr (explorer (network self)), VStr tx_hash]))))
      | Raises error \<Rightarrow>
          if cls error = TransactionNotFound then
            (if total_time > timeout then
               Terminated (Inl (Exc TimeExhausted
                 [VFStr ''Transaction missing from the chain after {timeout} seconds''
                    [VInt timeout]]))
             else
               poll_loop self tx_hash need_hash poll_latency timeout
                 (total_time + poll_latency) rs)
          else
            poll_loop self tx_hash need_hash poll_latency timeout
              (total_time + poll_latency) rs)"

text \<open>The body of the first \<^verbatim>\<open>try\<close>: the gas limit, unless the caller supplied it.\<close>

definition estimate_gas_step :: "eth \<Rightarrow> dict \<Rightarrow> bool \<Rightarrow> exc + dict" where
  "estimate_gas_step e transaction without_gas =
     (if \<not> without_gas then
        bind_exc (estimate_gas e transaction) (\<lambda>g.
        bind_exc (int_times_1_5 g) (\<lambda>gas.
          Inr (AList.update ''gas'' (VInt gas) transaction)))
      else Inr transaction)"

text \<open>The body of the second \<^verbatim>\<open>try\<close>: signing, then broadcast.\<close>

definition sign_and_send :: "Client \<Rightarrow> eth \<Rightarrow> dict \<Rightarrow> exc + string" where
  "sign_and_send self e transaction =
     bind_exc (sign_transaction e transaction (private_key self)) (send_raw_transaction e)"

definition send_transaction ::
  "Client \<Rightarrow> eth \<Rightarrow> dict \<Rightarrow> bool \<Rightarrow> bool \<Rightarrow> int \<Rightarrow> int \<Rightarrow> (error + retval) run"
where
  "send_transaction self e transaction need_hash without_gas poll_latency timeout =
     (case estimate_gas_step e transaction without_gas of
        Inl error \<Rightarrow> Terminated (Inl (BlockchainException (get_normalize_error error)))
      | Inr transaction1 \<Rightarrow>
          (case sign_and_send self e transaction1 of
             Inl error \<Rightarrow>
               if get_normalize_error error = NVal (VStr ''already known'') then
                 Terminated (Inr RTrue)
               else Terminated (Inl (BlockchainException (get_normalize_error error)))
           | Inr tx_hash \<Rightarrow>
               (let total_time = 0; timeout1 = 1200 in
                case poll_loop self tx_hash need_hash poll_latency timeout1 total_time
                       (get_transaction_receipt e tx_hash) of
                  Polling t \<Rightarrow> Polling t
                | Terminated (Inl error) \<Rightarrow>
                    Terminated (Inl (BlockchainException (get_normalize_error error)))
                | Terminated (Inr v) \<Rightarrow> Terminated (Inr v))))"

text \<open>A lookup that raises \<^verbatim>\<open>TransactionNotFound\<close>.\<close>

definition not_found :: "response \<Rightarrow> bool" where
  "not_found r = (case r of Returns receipts \<Rightarrow> False | Raises error \<Rightarrow> cls error = TransactionNotFound)"

text \<open>The \<^verbatim>\<open>TimeExhausted\<close> raised by the loop when its budget is \<open>timeout\<close>.\<close>

definition time_exhausted :: "int \<Rightarrow> exc" where
  "time_exhausted timeout =
     Exc TimeExhausted
       [VFStr ''Transaction missing from the chain after {timeout} seconds'' [VInt timeout]]"

section \<open>Concrete inputs\<close>

text \<open>A two-endpoint network, a client built on its first endpoint, and a chain.\<close>

definition demo_network :: Network where
  "demo_network =
     \<lparr>rpc = [''https://a'', ''https://b''], chain_id = 1, explorer = ''https://scan/'',
      eip1559_support = True\<rparr>"

definition demo_client :: Client where
  "demo_client =
     \<lparr>network = demo_network, self_rpc = ''https://a'', w3 = ''https://a'',
      private_key = ''key'', address = ''0xme''\<rparr>"

text \<open>A chain on which everything succeeds; the receipt lookups answer \<open>rs\<close>.\<close>

definition demo_eth :: "response list \<Rightarrow> eth" where
  "demo_eth rs =
     \<lparr>get_transaction_count = (\<lambda>a. Inr 7), gas_price = Inr 100,
      fee_history = Inr [[5], [0], [3], [0]], estimate_gas = (\<lambda>t. Inr 21000),
      sign_transaction = (\<lambda>t k. Inr ''raw''), send_raw_transaction = (\<lambda>raw. Inr ''0xabc''),
      get_transaction_receipt = (\<lambda>h. rs)\<rparr>"

text \<open>The same chain, but the broadcast raises \<open>error\<close>.\<close>

definition demo_eth_rejecting :: "exc \<Rightarrow> eth" where
  "demo_eth_rejecting error = (demo_eth [])\<lparr>send_raw_transaction := (\<lambda>raw. Inl error)\<rparr>"

text \<open>The same client on a network without priority-fee support.\<close>

definition demo_legacy_client :: Client where
  "demo_legacy_client = demo_client\<lparr>network := demo_network\<lparr>eip1559_support := False\<rparr>\<rparr>"

section \<open>The specification's words for the priority fee\<close>

text \<open>
  The non-zero reward samples of a window (the first entry of every block, zeros left
  out) and the arithmetic mean of a list of samples, as exact rationals.
\<close>

definition non_zero_samples :: "int list list \<Rightarrow> int list" where
  "non_zero_samples reward = filter (\<lambda>x. x \<noteq> 0) (map hd reward)"

definition mean :: "int list \<Rightarrow> rat" where
  "mean xs = of_int (sum_list xs) / of_int (int (length xs))"

section \<open>Properties of the confirmation poller\<close>

lemma poll_loop_append:
  "poll_loop self tx_hash need_hash poll_latency timeout total_time pre = Polling t \<Longrightarrow>
   poll_loop self tx_hash need_hash poll_latency timeout total_time (pre @ rs) =
   poll_loop self tx_hash need_hash poll_latency timeout t rs"
proof (induction pre arbitrary: total_time)
  case Nil
  then show ?case by simp
next
  case (Cons r pre)
  then show ?case
    by (cases r) (auto simp: Let_def split: if_splits)
qed

lemma send_transaction_polls:
  assumes "estimate_gas_step e transaction without_gas = Inr transaction1"
      and "sign_and_send self e transaction1 = Inr tx_hash"
  shows "send_transaction self e transaction need_hash without_gas poll_latency timeout =
        (case poll_loop self tx_hash need_hash poll_latency 1200 0
                (get_transaction_receipt e tx_hash) of
           Polling t \<Rightarrow> Polling t
         | Terminated (Inl error) \<Rightarrow>
             Terminated (Inl (BlockchainException (get_normalize_error error)))
         | Terminated (Inr v) \<Rightarrow> Terminated (Inr v))"
  using assms by (simp add: send_transaction_def)

text \<open>
  C1. Whenever the loop is still polling and the next lookup returns a receipt whose
  status is 1, the loop returns at once: the hash when \<^verbatim>\<open>need_hash\<close> is set, \<^verbatim>\<open>True\<close>
  otherwise. This holds for every accumulated \<^verbatim>\<open>total_time\<close> and every budget, also
  when the accumulated time is already beyond the budget, and \<^verbatim>\<open>send_transaction\<close>
  hands that value to its caller.
\<close>

theorem receipt_success_confirms:
  assumes "poll_loop self tx_hash need_hash poll_latency timeout total_time pre = Polling t"
      and "dict_get receipts ''status'' = VInt 1"
  shows "poll_loop self tx_hash need_hash poll_latency timeout total_time
           (pre @ Returns receipts # rest) =
         Terminated (Inr (if need_hash then RHash tx_hash else RTrue))"
  using assms by (simp add: poll_loop_append)

theorem receipt_success_confirms_witness:
  "poll_loop \<lparr>network = \<lparr>rpc = [''a''], chain_id = 1, explorer = ''x/'', eip1559_support = True\<rparr>,
              self_rpc = ''a'', w3 = ''a'', private_key = ''k'', address = ''me''\<rparr>
     ''0xabc'' True 10 20 0
     [Raises (Exc TransactionNotFound []), Raises (Exc TransactionNotFound []),
      Raises (Exc (OtherException ''ConnectionError'') [])] = Polling 30
   \<and> dict_get [(''status'', VInt 1)] ''status'' = VInt 1
   \<and> poll_loop \<lparr>network = \<lparr>rpc = [''a''], chain_id = 1, explorer = ''x/'', eip1559_support = True\<rparr>,
              self_rpc = ''a'', w3 = ''a'', private_key = ''k'', address = ''me''\<rparr>
     ''0xabc'' True 10 20 0
     ([Raises (Exc TransactionNotFound []), Raises (Exc TransactionNotFound []),
       Raises (Exc (OtherException ''ConnectionError'') [])]
      @ Returns [(''status'', VInt 1)] # []) = Terminated (Inr (RHash ''0xabc''))"
proof -
  let ?c = "\<lparr>network = \<lparr>rpc = [''a''], chain_id = 1, explorer = ''x/'', eip1559_support = True\<rparr>,
              self_rpc = ''a'', w3 = ''a'', private_key = ''k'', address = ''me''\<rparr>"
  let ?pre = "[Raises (Exc TransactionNotFound []), Raises (Exc TransactionNotFound []),
      Raises (Exc (OtherException ''ConnectionError'') [])]"
  have a: "poll_loop ?c ''0xabc'' True 10 20 0 ?pre = Polling 30"
    by simp
  have b: "dict_get [(''status'', VInt 1)] ''status'' = VInt 1"
    by (simp add: dict_get_def)
  from receipt_success_confirms [OF a b, of "[]"] a b show ?thesis
    by simp
qed

text \<open>
  C8. Whenever the loop is still polling and the next lookup returns a receipt whose
  status is present and is not 1 (0, or any other value), \<^verbatim>\<open>send_transaction\<close> returns a
  \<^verbatim>\<open>SoftwareException\<close> object as its value: nothing is raised, and the result is not
  the chain-communication error.
\<close>

theorem receipt_failure_is_returned:
  assumes "estimate_gas_step e transaction without_gas = Inr transaction1"
      and "sign_and_send self e transaction1 = Inr tx_hash"
      and "get_transaction_receipt e tx_hash = pre @ Returns receipts # rest"
      and "poll_loop self tx_hash need_hash poll_latency 1200 0 pre = Polling t"
      and "dict_get receipts ''status'' \<noteq> VInt 1"
      and "dict_get receipts ''status'' \<noteq> VNone"
  shows "send_transaction self e transaction need_hash without_gas poll_latency timeout =
         Terminated (Inr (RSoftwareException
           (VFStr ''Transaction failed: {explorer}tx/{tx_hash}''
              [VStr (explorer (network self)), VStr tx_hash])))"
  using assms by (simp add: send_transaction_polls poll_loop_append)

theorem receipt_failure_is_returned_witness:
  "estimate_gas_step (demo_eth [Returns [], Returns [(''status'', VInt 2)]]) [] True = Inr []
   \<and> sign_and_send demo_client (demo_eth [Returns [], Returns [(''status'', VInt 2)]]) [] =
       Inr ''0xabc''
   \<and> get_transaction_receipt (demo_eth [Returns [], Returns [(''status'', VInt 2)]]) ''0xabc'' =
       [Returns []] @ Returns [(''status'', VInt 2)] # []
   \<and> poll_loop demo_client ''0xabc'' False 10 1200 0 [Returns []] = Polling 0
   \<and> dict_get [(''status'', VInt 2)] ''status'' \<noteq> VInt 1
   \<and> dict_get [(''status'', VInt 2)] ''status'' \<noteq> VNone
   \<and> send_transaction demo_client (demo_eth [Returns [], Returns [(''status'', VInt 2)]]) []
        False True 10 360 =
       Terminated (Inr (RSoftwareException
         (VFStr ''Transaction failed: {explorer}tx/{tx_hash}''
            [VStr ''https://scan/'', VStr ''0xabc''])))"
proof -
  let ?e = "demo_eth [Returns [], Returns [(''status'', VInt 2)]]"
  have a: "estimate_gas_step ?e [] True = Inr []"
    by (simp add: estimate_gas_step_def)
  have b: "sign_and_send demo_client ?e [] = Inr ''0xabc''"
    by (simp add: sign_and_send_def demo_eth_def bind_exc_def)
  have c: "get_transaction_receipt ?e ''0xabc'' = [Returns []] @ Returns [(''status'', VInt 2)] # []"
    by (simp add: demo_eth_def)
  have d: "poll_loop demo_client ''0xabc'' False 10 1200 0 [Returns []] = Polling 0"
    by (simp add: dict_get_def)
  have f: "dict_get [(''status'', VInt 2)] ''status'' \<noteq> VInt 1"
    by (simp add: dict_get_def)
  have g: "dict_get [(''status'', VInt 2)] ''status'' \<noteq> VNone"
    by (simp add: dict_get_def)
  have h: "explorer (network demo_client) = ''https://scan/''"
    by (simp add: demo_client_def demo_network_def)
  from receipt_failure_is_returned [OF a b c d f g, of 360] a b c d f g h show ?thesis
    by simp
qed

lemma poll_loop_other_errors:
  "poll_loop self tx_hash need_hash poll_latency timeout total_time
     (replicate n (Raises (Exc (OtherException c) a))) =
   Polling (total_time + int n * poll_latency)"
  by (induction n arbitrary: total_time) (simp_all add: algebra_simps)

text \<open>
  C3. The handler of a lookup error other than \<^verbatim>\<open>TransactionNotFound\<close> adds the poll
  interval to \<^verbatim>\<open>total_time\<close> and never compares it with the budget: when every lookup
  raises such an error, the loop is still polling after any number \<open>n\<close> of lookups, with
  \<open>n\<close> intervals accumulated, however far beyond 1200 that is.
\<close>

theorem persistent_query_errors_never_terminate:
  "send_transaction demo_client
     (demo_eth (replicate n (Raises (Exc (OtherException c) a)))) [] need_hash True
     poll_latency timeout =
   Polling (int n * poll_latency)"
proof -
  let ?e = "demo_eth (replicate n (Raises (Exc (OtherException c) a)))"
  have a: "estimate_gas_step ?e [] True = Inr []"
    by (simp add: estimate_gas_step_def)
  have b: "sign_and_send demo_client ?e [] = Inr ''0xabc''"
    by (simp add: sign_and_send_def demo_eth_def bind_exc_def)
  have c: "get_transaction_receipt ?e ''0xabc'' = replicate n (Raises (Exc (OtherException c) a))"
    by (simp add: demo_eth_def)
  show ?thesis
    by (simp add: send_transaction_polls [OF a b] c poll_loop_other_errors)
qed

text \<open>
  C10. The \<^verbatim>\<open>timeout\<close> argument has no effect: two calls that differ only in it give the
  same result, and once the transaction is broadcast the loop runs with the budget 1200
  and \<^verbatim>\<open>total_time\<close> 0.
\<close>

theorem timeout_argument_is_ignored:
  "send_transaction self e transaction need_hash without_gas poll_latency timeout =
   send_transaction self e transaction need_hash without_gas poll_latency timeout'
   \<and> (estimate_gas_step e transaction without_gas = Inr transaction1 \<and>
      sign_and_send self e transaction1 = Inr tx_hash \<longrightarrow>
      send_transaction self e transaction need_hash without_gas poll_latency timeout =
        (case poll_loop self tx_hash need_hash poll_latency 1200 0
                (get_transaction_receipt e tx_hash) of
           Polling t \<Rightarrow> Polling t
         | Terminated (Inl error) \<Rightarrow>
             Terminated (Inl (BlockchainException (get_normalize_error error)))
         | Terminated (Inr v) \<Rightarrow> Terminated (Inr v)))"
  by (simp add: send_transaction_def)

theorem timeout_argument_is_ignored_witness:
  "estimate_gas_step (demo_eth (replicate 14 (Raises (Exc TransactionNotFound [])))) [] True = Inr []
   \<and> sign_and_send demo_client (demo_eth (replicate 14 (Raises (Exc TransactionNotFound [])))) [] =
       Inr ''0xabc''
   \<and> send_transaction demo_client (demo_eth (replicate 14 (Raises (Exc TransactionNotFound []))))
       [] False True 10 120 =
     send_transaction demo_client (demo_eth (replicate 14 (Raises (Exc TransactionNotFound []))))
       [] False True 10 360
   \<and> send_transaction demo_client (demo_eth (replicate 14 (Raises (Exc TransactionNotFound []))))
       [] False True 10 120 =
       (case poll_loop demo_client ''0xabc'' False 10 1200 0
               (get_transaction_receipt
                  (demo_eth (replicate 14 (Raises (Exc TransactionNotFound [])))) ''0xabc'') of
          Polling t \<Rightarrow> Polling t
        | Terminated (Inl error) \<Rightarrow>
            Terminated (Inl (BlockchainException (get_normalize_error error)))
        | Terminated (Inr v) \<Rightarrow> Terminated (Inr v))"
proof -
  let ?e = "demo_eth (replicate 14 (Raises (Exc TransactionNotFound [])))"
  have a: "estimate_gas_step ?e [] True = Inr []"
    by (simp add: estimate_gas_step_def)
  have b: "sign_and_send demo_client ?e [] = Inr ''0xabc''"
    by (simp add: sign_and_send_def demo_eth_def bind_exc_def)
  from timeout_argument_is_ignored
         [of demo_client ?e "[]" False True 10 120 360 "[]" "''0xabc''"] a b
  show ?thesis by blast
qed

lemma poll_loop_not_found:
  assumes "list_all not_found rs" and "0 \<le> poll_latency"
  shows "poll_loop self tx_hash need_hash poll_latency timeout total_time rs =
         (if rs \<noteq> [] \<and> timeout < total_time + (int (length rs) - 1) * poll_latency
          then Terminated (Inl (time_exhausted timeout))
          else Polling (total_time + int (length rs) * poll_latency))"
  using assms(1)
proof (induction rs arbitrary: total_time)
  case Nil
  then show ?case by simp
next
  case (Cons r rs)
  from Cons.prems obtain error where r: "r = Raises error" "cls error = TransactionNotFound"
    by (cases r) (auto simp: not_found_def)
  from Cons.prems have rest: "list_all not_found rs" by simp
  have nn: "0 \<le> int (length rs) * poll_latency"
    using assms(2) by simp
  show ?case
  proof (cases "timeout < total_time")
    case True
    with nn r show ?thesis
      by (simp add: time_exhausted_def)
  next
    case False
    with r Cons.IH [OF rest, of "total_time + poll_latency"] show ?thesis
      by (cases rs) (auto simp: algebra_simps)
  qed
qed

text \<open>
  The loop itself, if its budget variable held 120: the fourteenth failed lookup, with
  130 seconds accumulated, raises \<^verbatim>\<open>TimeExhausted\<close>; the thirteenth does not.
\<close>

lemma poll_loop_budget_120:
  "poll_loop self tx_hash need_hash 10 120 0 (replicate 14 (Raises (Exc TransactionNotFound a))) =
     Terminated (Inl (time_exhausted 120))
   \<and> poll_loop self tx_hash need_hash 10 120 0 (replicate 13 (Raises (Exc TransactionNotFound a))) =
     Polling 130"
proof -
  have "list_all not_found (replicate n (Raises (Exc TransactionNotFound a)))" for n
    by (simp add: list_all_iff not_found_def)
  then show ?thesis
    by (simp add: poll_loop_not_found)
qed



text \<open>
  Through \<^verbatim>\<open>send_transaction\<close> the budget of the loop is 1200, and the
  \<^verbatim>\<open>TimeExhausted\<close> raised by the loop reaches the caller inside the
  chain-communication error.
\<close>

lemma send_transaction_time_exhausted:
  assumes "estimate_gas_step e transaction without_gas = Inr transaction1"
      and "sign_and_send self e transaction1 = Inr tx_hash"
      and "get_transaction_receipt e tx_hash = pre @ Raises error # rest"
      and "poll_loop self tx_hash need_hash poll_latency 1200 0 pre = Polling t"
      and "1200 < t"
      and "cls error = TransactionNotFound"
  shows "send_transaction self e transaction need_hash without_gas poll_latency timeout =
         Terminated (Inl (BlockchainException (NExc (time_exhausted 1200))))"
proof -
  have "get_normalize_error (time_exhausted 1200) = NExc (time_exhausted 1200)"
    by (simp add: get_normalize_error_def time_exhausted_def)
  then show ?thesis
    using assms(3-6)
    by (simp add: send_transaction_polls [OF assms(1,2)] poll_loop_append time_exhausted_def)
qed

section \<open>Properties of the submitter\<close>

text \<open>
  C7. When signing or broadcasting raises, the call returns \<^verbatim>\<open>True\<close> (success, no
  hash) exactly when the error normalizes to the string \<^verbatim>\<open>'already known'\<close>; every other
  failure is raised as the chain-communication error carrying the normalized error.
\<close>

theorem broadcast_failure_handling:
  assumes "estimate_gas_step e transaction without_gas = Inr transaction1"
      and "sign_and_send self e transaction1 = Inl error"
  shows "send_transaction self e transaction need_hash without_gas poll_latency timeout =
         (if get_normalize_error error = NVal (VStr ''already known'')
          then Terminated (Inr RTrue)
          else Terminated (Inl (BlockchainException (get_normalize_error error))))"
  using assms by (simp add: send_transaction_def)

theorem broadcast_failure_handling_witness:
  "estimate_gas_step
     (demo_eth_rejecting (Exc (OtherException ''ValueError'')
        [VDict [(''code'', VInt (- 32000)), (''message'', VStr ''already known'')]])) [] True = Inr []
   \<and> sign_and_send demo_client
     (demo_eth_rejecting (Exc (OtherException ''ValueError'')
        [VDict [(''code'', VInt (- 32000)), (''message'', VStr ''already known'')]])) [] =
     Inl (Exc (OtherException ''ValueError'')
        [VDict [(''code'', VInt (- 32000)), (''message'', VStr ''already known'')]])
   \<and> send_transaction demo_client
     (demo_eth_rejecting (Exc (OtherException ''ValueError'')
        [VDict [(''code'', VInt (- 32000)), (''message'', VStr ''already known'')]]))
     [] True True 10 360 = Terminated (Inr RTrue)
   \<and> estimate_gas_step
     (demo_eth_rejecting (Exc (OtherException ''ValueError'')
        [VDict [(''code'', VInt (- 32000)), (''message'', VStr ''nonce too low'')]])) [] True = Inr []
   \<and> sign_and_send demo_client
     (demo_eth_rejecting (Exc (OtherException ''ValueError'')
        [VDict [(''code'', VInt (- 32000)), (''message'', VStr ''nonce too low'')]])) [] =
     Inl (Exc (OtherException ''ValueError'')
        [VDict [(''code'', VInt (- 32000)), (''message'', VStr ''nonce too low'')]])
   \<and> send_transaction demo_client
     (demo_eth_rejecting (Exc (OtherException ''ValueError'')
        [VDict [(''code'', VInt (- 32000)), (''message'', VStr ''nonce too low'')]]))
     [] True True 10 360 =
     Terminated (Inl (BlockchainException (NVal (VStr ''nonce too low''))))"
proof -
  let ?known = "Exc (OtherException ''ValueError'')
        [VDict [(''code'', VInt (- 32000)), (''message'', VStr ''already known'')]]"
  let ?low = "Exc (OtherException ''ValueError'')
        [VDict [(''code'', VInt (- 32000)), (''message'', VStr ''nonce too low'')]]"
  have a: "estimate_gas_step (demo_eth_rejecting x) [] True = Inr []" for x
    by (simp add: estimate_gas_step_def)
  have b: "sign_and_send demo_client (demo_eth_rejecting x) [] = Inl x" for x
    by (simp add: sign_and_send_def demo_eth_rejecting_def demo_eth_def bind_exc_def)
  have k: "get_normalize_error ?known = NVal (VStr ''already known'')"
    by (simp add: get_normalize_error_def)
  have l: "get_normalize_error ?low = NVal (VStr ''nonce too low'')"
    by (simp add: get_normalize_error_def)
  from broadcast_failure_handling [OF a b, of ?known True 10 360]
       broadcast_failure_handling [OF a b, of ?low True 10 360] a b k l
  show ?thesis by simp
qed

section \<open>Properties of the endpoint selector\<close>

lemma change_rpc_single_endpoint:
  "length (rpc (network self)) = 1 \<Longrightarrow> change_rpc r self = Inr ([LogWarning, LogError], self)"
  by (simp add: change_rpc_def)

lemma change_rpc_keeps_network:
  "change_rpc r self = Inr (logs, self') \<Longrightarrow>
   network self' = network self \<and> self_rpc self' = self_rpc self"
  by (auto simp: change_rpc_def bind_exc_def Let_def split: if_splits sum.splits)

text \<open>
  C9. \<^verbatim>\<open>change_rpc\<close> excludes \<^verbatim>\<open>self.rpc\<close>, which it never updates, and not the
  endpoint \<^verbatim>\<open>self.w3\<close> is connected to. On a two-endpoint network the client built on
  the first endpoint moves to the second at its first swap, whatever the random draw; at
  its second swap the only candidate is again the second endpoint, so the active endpoint
  does not change, and the swap is logged as a success.
\<close>

theorem second_swap_keeps_active_endpoint:
  "init_client 0 demo_network ''key'' ''0xme'' = Inr demo_client
   \<and> change_rpc r demo_client = Inr ([LogWarning, LogSuccess], demo_client\<lparr>w3 := ''https://b''\<rparr>)
   \<and> change_rpc r' (demo_client\<lparr>w3 := ''https://b''\<rparr>) =
       Inr ([LogWarning, LogSuccess], demo_client\<lparr>w3 := ''https://b''\<rparr>)"
  by (simp add: init_client_def change_rpc_def random_choice_def bind_exc_def demo_client_def
      demo_network_def)

section \<open>Properties of the floating-point model\<close>

lemma round_half_even_of_int: "round_half_even (of_int n) = n"
  by (simp add: round_half_even_def)

lemma round_half_even_lower:
  assumes "of_int k \<le> x" and "x < of_int k + 1 / 2"
  shows "round_half_even x = k"
proof -
  have "\<lfloor>x\<rfloor> = k" using assms by linarith
  then show ?thesis using assms by (simp add: round_half_even_def)
qed

lemma round_half_even_upper:
  assumes "of_int k + 1 / 2 < x" and "x \<le> of_int k + 1"
  shows "round_half_even x = k + 1"
proof (cases "x = of_int k + 1")
  case True
  then have "x = of_int (k + 1)" by simp
  then show ?thesis using round_half_even_of_int by metis
next
  case False
  then have "\<lfloor>x\<rfloor> = k" using assms by linarith
  then show ?thesis using assms by (simp add: round_half_even_def)
qed

lemma round_half_even_ge: "x - 1 / 2 \<le> of_int (round_half_even x)"
  unfolding round_half_even_def Let_def by (auto; linarith)

lemma round_half_even_le: "of_int (round_half_even x) \<le> x + 1 / 2"
  unfolding round_half_even_def Let_def by (auto; linarith)

lemma rat_exponent_bounds:
  assumes "q \<noteq> 0"
  shows "2 powi (rat_exponent q) \<le> \<bar>q\<bar>" and "\<bar>q\<bar> < 2 powi (rat_exponent q + 1)"
proof -
  obtain a b where ab: "quotient_of \<bar>q\<bar> = (a, b)" by (cases "quotient_of \<bar>q\<bar>")
  then have b: "0 < b" by (rule quotient_of_denom_pos)
  have q: "\<bar>q\<bar> = of_int a / of_int b" using ab by (rule quotient_of_div)
  have "0 < \<bar>q\<bar>" using assms by simp
  with q b have a: "0 < a" by (simp add: zero_less_divide_iff)
  define n where "n = bitlen a - bitlen b"
  have ba: "1 \<le> bitlen a" "1 \<le> bitlen b"
    using a b bitlen_eq_zero_iff [of a] bitlen_eq_zero_iff [of b] bitlen_nonneg [of a] bitlen_nonneg [of b]
    by linarith+
  have pw: "(2::rat) powi k = of_int (2 ^ nat k)" if "0 \<le> k" for k
    using that by (simp add: power_int_def)
  have a1: "(2::rat) powi (bitlen a - 1) \<le> of_int a" "of_int a < (2::rat) powi (bitlen a)"
    using bitlen_bounds [OF a] ba pw [of "bitlen a - 1"] pw [of "bitlen a"]
    by (simp_all only: of_int_le_iff of_int_less_iff)
  have b1: "(2::rat) powi (bitlen b - 1) \<le> of_int b" "of_int b < (2::rat) powi (bitlen b)"
    using bitlen_bounds [OF b] ba pw [of "bitlen b - 1"] pw [of "bitlen b"]
    by (simp_all only: of_int_le_iff of_int_less_iff)
  have pos: "(0::rat) < 2 powi k" for k
    by simp
  have "(2::rat) powi (bitlen a) = 2 powi (n + 1) * 2 powi (bitlen b - 1)"
    by (simp add: n_def flip: power_int_add)
  also have "\<dots> \<le> 2 powi (n + 1) * of_int b"
    using b1(1) pos [of "n + 1"] by (simp only: mult_le_cancel_left_pos)
  finally have "of_int a < 2 powi (n + 1) * (of_int b :: rat)"
    using a1(2) by linarith
  then have up: "\<bar>q\<bar> < 2 powi (n + 1)"
    using b by (simp add: q pos_divide_less_eq)
  have "2 powi (n - 1) * (of_int b :: rat) < 2 powi (n - 1) * 2 powi (bitlen b)"
    using b1(2) pos [of "n - 1"] by (simp only: mult_less_cancel_left_pos)
  also have "\<dots> = 2 powi (bitlen a - 1)"
    by (simp add: n_def flip: power_int_add)
  finally have "2 powi (n - 1) * (of_int b :: rat) \<le> of_int a"
    using a1(1) by linarith
  then have lo: "2 powi (n - 1) \<le> \<bar>q\<bar>"
    using b by (simp add: q pos_le_divide_eq)
  have step: "(2::rat) powi (n - 1 + 1) = 2 powi n"
    by simp
  have e: "rat_exponent q = (if 2 powi n \<le> \<bar>q\<bar> then n else n - 1)"
    by (simp add: rat_exponent_def ab n_def)
  show "2 powi (rat_exponent q) \<le> \<bar>q\<bar>" using e lo by auto
  show "\<bar>q\<bar> < 2 powi (rat_exponent q + 1)" using e up by (auto simp: not_le)
qed


lemma round_half_even_twice:
  fixes q :: rat and M :: int
  assumes M: "1 \<le> M"
      and sep: "q \<noteq> of_int \<lfloor>q\<rfloor> + 1 / 2 \<Longrightarrow>
                1 / 2 < of_int (2 * M) * \<bar>q - (of_int \<lfloor>q\<rfloor> + 1 / 2)\<bar>"
  shows "round_half_even (of_int (round_half_even (of_int (2 * M) * q)) / of_int (2 * M)) =
         round_half_even q"
proof -
  define k where "k = \<lfloor>q\<rfloor>"
  define N :: rat where "N = of_int (2 * M)"
  define m where "m = round_half_even (N * q)"
  have N: "0 < N" using M by (simp add: N_def)
  have kq: "of_int k \<le> q" "q < of_int k + 1" unfolding k_def by linarith+
  have half: "N * (of_int k + 1 / 2) = of_int (2 * M * k + M)"
    by (simp add: N_def algebra_simps)
  have full: "N * of_int k = of_int (2 * M * k)" "N * (of_int k + 1) = of_int (2 * M * k + 2 * M)"
    by (simp_all add: N_def algebra_simps)
  have mlo: "N * q - 1 / 2 \<le> of_int m" and mhi: "of_int m \<le> N * q + 1 / 2"
    by (simp_all add: m_def round_half_even_ge round_half_even_le)
  consider "q = of_int k + 1 / 2" | "q < of_int k + 1 / 2" | "of_int k + 1 / 2 < q"
    by linarith
  then have "round_half_even (of_int m / N) = round_half_even q"
  proof cases
    case 1
    then have "N * q = of_int (2 * M * k + M)" using half by simp
    then have "m = 2 * M * k + M" unfolding m_def by (simp only: round_half_even_of_int)
    then have "of_int m = N * q" using half 1 by simp
    then have "of_int m / N = q" using N by simp
    then show ?thesis by simp
  next
    case 2
    then have rq: "round_half_even q = k" using kq by (intro round_half_even_lower) simp_all
    from 2 have ne: "q \<noteq> of_int \<lfloor>q\<rfloor> + 1 / 2" by (simp add: k_def)
    have "\<bar>q - (of_int k + 1 / 2)\<bar> = of_int k + 1 / 2 - q" using 2 by simp
    with sep [OF ne] have "1 / 2 < N * (of_int k + 1 / 2 - q)" by (simp add: N_def k_def)
    then have "N * q + 1 / 2 < N * (of_int k + 1 / 2)" by (simp add: algebra_simps)
    with mhi half have "(of_int m :: rat) < of_int (2 * M * k + M)" by linarith
    then have m1: "m < 2 * M * k + M" by (simp only: of_int_less_iff)
    have "N * of_int k \<le> N * q" using kq N by simp
    with mlo full have "(of_int (2 * M * k) :: rat) - 1 / 2 \<le> of_int m" by linarith
    then have "(of_int (2 * M * k) :: rat) < of_int m + 1" by linarith
    then have "(of_int (2 * M * k) :: rat) < of_int (m + 1)" by simp
    then have "2 * M * k < m + 1" by (simp only: of_int_less_iff)
    then have m2: "2 * M * k \<le> m" by simp
    have a: "of_int k \<le> of_int m / N"
      using m2 N by (simp add: pos_le_divide_eq N_def flip: of_int_mult) (simp add: algebra_simps)
    have "(of_int m :: rat) < of_int (2 * M * k + M)" using m1 by (simp only: of_int_less_iff)
    then have "of_int m < N * (of_int k + 1 / 2)" using half by simp
    then have b: "of_int m / N < of_int k + 1 / 2"
      using N by (simp add: pos_divide_less_eq algebra_simps)
    from a b have "round_half_even (of_int m / N) = k" by (rule round_half_even_lower)
    with rq show ?thesis by simp
  next
    case 3
    then have rq: "round_half_even q = k + 1" using kq by (intro round_half_even_upper) simp_all
    from 3 have ne: "q \<noteq> of_int \<lfloor>q\<rfloor> + 1 / 2" by (simp add: k_def)
    have "\<bar>q - (of_int k + 1 / 2)\<bar> = q - (of_int k + 1 / 2)" using 3 by simp
    with sep [OF ne] have "1 / 2 < N * (q - (of_int k + 1 / 2))" by (simp add: N_def k_def)
    then have "N * (of_int k + 1 / 2) < N * q - 1 / 2" by (simp add: algebra_simps)
    with mlo half have "(of_int (2 * M * k + M) :: rat) < of_int m" by linarith
    then have "N * (of_int k + 1 / 2) < of_int m" using half by simp
    then have a: "of_int k + 1 / 2 < of_int m / N"
      using N by (simp add: pos_less_divide_eq algebra_simps)
    have "N * q < N * (of_int k + 1)" using kq N by simp
    with mhi full have "(of_int m :: rat) < of_int (2 * M * k + 2 * M) + 1 / 2" by linarith
    then have "(of_int m :: rat) < of_int (2 * M * k + 2 * M + 1)" by simp
    then have "m < 2 * M * k + 2 * M + 1" by (simp only: of_int_less_iff)
    then have "m \<le> 2 * M * k + 2 * M" by simp
    then have "(of_int m :: rat) \<le> of_int (2 * M * k + 2 * M)" by (simp only: of_int_le_iff)
    then have "of_int m \<le> N * (of_int k + 1)" using full by simp
    then have b: "of_int m / N \<le> of_int k + 1"
      using N by (simp add: pos_divide_le_eq algebra_simps)
    from a b have "round_half_even (of_int m / N) = k + 1" by (rule round_half_even_upper)
    with rq show ?thesis by simp
  qed
  then show ?thesis by (simp add: m_def N_def)
qed


lemma to_double_small:
  assumes "q \<noteq> 0" and "\<bar>q\<bar> < 2 ^ 52"
  defines "e \<equiv> max (rat_exponent q) (- 1022)"
  shows "e \<le> 51"
    and "to_double q =
         Some (of_int (round_half_even (of_int (2 * 2 ^ nat (51 - e)) * q)) /
               of_int (2 * 2 ^ nat (51 - e)))"
proof -
  have "rat_exponent q < 52"
  proof (rule ccontr)
    assume "\<not> rat_exponent q < 52"
    then have "(2::rat) powi 52 \<le> 2 powi (rat_exponent q)"
      by (intro power_int_increasing) simp_all
    also have "\<dots> \<le> \<bar>q\<bar>" using assms(1) by (rule rat_exponent_bounds)
    finally show False using assms(2) by simp
  qed
  then show e: "e \<le> 51" by (simp add: e_def)
  have "52 - e = int (Suc (nat (51 - e)))" using e by simp
  then have "(2::rat) powi (52 - e) = 2 ^ Suc (nat (51 - e))"
    by (simp only: power_int_of_nat)
  then have u: "(2::rat) powi (e - 52) = 1 / of_int (2 * 2 ^ nat (51 - e))"
    using power_int_minus_divide [of "2::rat" "52 - e"] by simp
  have "to_double q =
        Some (of_int (round_half_even (q / 2 powi (e - 52))) * 2 powi (e - 52))"
    using assms(1) e by (simp add: to_double_def Let_def e_def)
  then show "to_double q =
         Some (of_int (round_half_even (of_int (2 * 2 ^ nat (51 - e)) * q)) /
               of_int (2 * 2 ^ nat (51 - e)))"
    by (simp only: u) (simp add: mult.commute)
qed

lemma to_double_exact:
  assumes "\<bar>n\<bar> < 2 ^ 53"
  shows "to_double (of_int n / 2) = Some (of_int n / 2)"
proof (cases "n = 0")
  case True
  then show ?thesis by (simp add: to_double_def)
next
  case False
  define q :: rat where "q = of_int n / 2"
  have q0: "q \<noteq> 0" using False by (simp add: q_def)
  have "\<bar>of_int n :: rat\<bar> < 2 ^ 53"
    using assms by (metis of_int_abs of_int_less_iff of_int_numeral of_int_power)
  then have qb: "\<bar>q\<bar> < 2 ^ 52" by (simp add: q_def)
  define M :: int where "M = 2 ^ nat (51 - max (rat_exponent q) (- 1022))"
  have M: "0 < M" by (simp add: M_def)
  have "of_int (2 * M) * q = of_int (M * n)"
    by (simp add: q_def)
  then have "round_half_even (of_int (2 * M) * q) = M * n"
    by (simp only: round_half_even_of_int)
  moreover have "to_double q =
      Some (of_int (round_half_even (of_int (2 * M) * q)) / of_int (2 * M))"
    unfolding M_def by (rule to_double_small(2) [OF q0 qb])
  ultimately have "to_double q = Some (of_int (M * n) / of_int (2 * M))"
    by simp
  also have "of_int (M * n) / of_int (2 * M) = q"
    using M by (simp add: q_def)
  finally show ?thesis by (simp add: q_def)
qed


lemma to_double_divide:
  fixes s d :: int
  assumes "\<bar>s\<bar> < 2 ^ 52" and "0 < d"
  shows "\<exists>y. to_double (of_int s / of_int d) = Some y \<and>
             round_half_even y = round_half_even (of_int s / of_int d)"
proof (cases "s = 0")
  case True
  then show ?thesis by (simp add: to_double_def)
next
  case False
  define S :: rat where "S = of_int s"
  define D :: rat where "D = of_int d"
  define q where "q = S / D"
  have D: "1 \<le> D" using assms(2) by (simp add: D_def)
  have Sb: "\<bar>S\<bar> < 2 ^ 52"
    using assms(1) unfolding S_def
    by (metis of_int_abs of_int_less_iff of_int_numeral of_int_power)
  have q0: "q \<noteq> 0" using False D by (simp add: q_def S_def)
  have qS: "\<bar>q\<bar> * D = \<bar>S\<bar>" using D by (simp add: q_def abs_divide)
  have "\<bar>q\<bar> \<le> \<bar>q\<bar> * D" using D by (simp add: mult_le_cancel_left1)
  with qS Sb have qb: "\<bar>q\<bar> < 2 ^ 52" by simp
  define e where "e = max (rat_exponent q) (- 1022)"
  define M :: int where "M = 2 ^ nat (51 - e)"
  have e: "e \<le> 51" unfolding e_def by (rule to_double_small(1) [OF q0 qb])
  have td: "to_double q =
      Some (of_int (round_half_even (of_int (2 * M) * q)) / of_int (2 * M))"
    unfolding M_def e_def by (rule to_double_small(2) [OF q0 qb])
  have M: "1 \<le> M" by (simp add: M_def)
  have M2: "of_int (2 * M) = (2::rat) powi (52 - e)"
  proof -
    have "52 - e = int (Suc (nat (51 - e)))" using e by simp
    then have "(2::rat) powi (52 - e) = 2 ^ Suc (nat (51 - e))"
      by (simp only: power_int_of_nat)
    then show ?thesis by (simp add: M_def)
  qed
  have sep: "1 / 2 < of_int (2 * M) * \<bar>q - (of_int \<lfloor>q\<rfloor> + 1 / 2)\<bar>"
    if ne: "q \<noteq> of_int \<lfloor>q\<rfloor> + 1 / 2"
  proof (cases "- 1022 \<le> rat_exponent q")
    case True
    then have ee: "e = rat_exponent q" by (simp add: e_def)
    define k where "k = \<lfloor>q\<rfloor>"
    define t where "t = 2 * s - (2 * k + 1) * d"
    have eq: "q - (of_int k + 1 / 2) = of_int t / (2 * D)"
      using D by (simp add: q_def t_def S_def D_def field_simps)
    have "t \<noteq> 0" using eq ne D by (auto simp: k_def)
    then have t1: "1 \<le> \<bar>of_int t :: rat\<bar>"
      by (metis abs_ge_zero of_int_abs of_int_le_iff of_int_1 zero_less_abs_iff
          int_one_le_iff_zero_less)
    have "2 powi e * D \<le> \<bar>q\<bar> * D"
      using rat_exponent_bounds(1) [OF q0] D by (simp add: ee)
    also have "\<dots> < 2 ^ 52" using qS Sb by simp
    also have "(2::rat) ^ 52 = 2 powi e * 2 powi (52 - e)"
      by (simp flip: power_int_add)
    finally have "D < 2 powi (52 - e)"
      by simp
    then have dM: "D < of_int (2 * M)"
      by (simp only: M2)
    have "1 / 2 < of_int (2 * M) / (2 * D)"
      using dM D by (simp add: field_simps)
    also have "\<dots> \<le> of_int (2 * M) * \<bar>of_int t\<bar> / (2 * D)"
      using t1 D M by (simp add: field_simps)
    also have "\<dots> = of_int (2 * M) * \<bar>q - (of_int k + 1 / 2)\<bar>"
      using D by (simp add: eq abs_divide)
    finally show ?thesis by (simp add: k_def)
  next
    case False
    then have "rat_exponent q + 1 \<le> - 2" by simp
    then have "(2::rat) powi (rat_exponent q + 1) \<le> 2 powi (- 2)"
      by (intro power_int_increasing) simp_all
    with rat_exponent_bounds(2) [OF q0] have "\<bar>q\<bar> < 2 powi (- 2)" by linarith
    then have small: "\<bar>q\<bar> < 1 / 4" by (simp add: power_int_minus_divide)
    have "\<lfloor>q\<rfloor> = 0 \<or> \<lfloor>q\<rfloor> = - 1"
    proof (cases "0 \<le> q")
      case True
      with small have "\<lfloor>q\<rfloor> = 0" by (simp add: floor_eq_iff)
      then show ?thesis by simp
    next
      case False
      with small have "\<lfloor>q\<rfloor> = - 1" by (simp add: floor_eq_iff)
      then show ?thesis by simp
    qed
    with small have "1 / 4 < \<bar>q - (of_int \<lfloor>q\<rfloor> + 1 / 2)\<bar>" by auto
    moreover have "(2::rat) \<le> of_int (2 * M)" using M by simp
    ultimately have "2 * (1 / 4) < of_int (2 * M) * \<bar>q - (of_int \<lfloor>q\<rfloor> + 1 / 2)\<bar>"
      by (intro mult_le_less_imp_less) simp_all
    then show ?thesis by simp
  qed
  have "round_half_even (of_int (round_half_even (of_int (2 * M) * q)) / of_int (2 * M)) =
        round_half_even q"
    using M sep by (rule round_half_even_twice)
  with td show ?thesis by (simp add: q_def S_def D_def)
qed


lemma int_times_1_5_exact:
  assumes "0 \<le> x" and "3 * x < 2 ^ 53"
  shows "int_times_1_5 x = Inr (3 * x div 2)"
proof -
  have a: "\<bar>2 * x\<bar> < 2 ^ 53" "\<bar>3 * x\<bar> < 2 ^ 53"
    using assms by simp_all
  have "to_double (of_int (2 * x) / 2) = Some (of_int (2 * x) / 2)"
    using a(1) by (rule to_double_exact)
  then have f: "to_double (of_int x) = Some (of_int x)"
    by simp
  have "to_double (of_int (3 * x) / 2) = Some (of_int (3 * x) / 2)"
    using a(2) by (rule to_double_exact)
  then have p: "to_double (of_int x * (3 / 2)) = Some (of_int (3 * x) / 2)"
    by (simp add: mult.commute)
  have "(0::rat) \<le> of_int (3 * x) / 2"
    using assms(1) by simp
  moreover have "\<lfloor>(of_int (3 * x) :: rat) / of_int 2\<rfloor> = 3 * x div 2"
    by (rule floor_divide_of_int_eq)
  ultimately have t: "py_int_of_float (of_int (3 * x) / 2) = 3 * x div 2"
    by (simp add: py_int_of_float_def)
  have "int_times_1_5 x = Inr (py_int_of_float (of_int (3 * x) / 2))"
    unfolding int_times_1_5_def py_float_of_int_def bind_exc_def
    by (simp only: f p option.case sum.case)
  then show ?thesis
    by (simp only: t)
qed

lemma to_double_above_2_53:
  "to_double 9007199254740993 = Some 9007199254740992"
  by code_simp

section \<open>Properties of the fee estimator\<close>

lemma non_empty_block_priority_fees_eq:
  "[] \<notin> set reward \<Longrightarrow> non_empty_block_priority_fees reward = Inr (non_zero_samples reward)"
  by (induction reward rule: non_empty_block_priority_fees.induct)
     (simp_all add: non_zero_samples_def bind_exc_def)

lemma round_half_even_nearest:
  "\<bar>of_int (round_half_even x) - x\<bar> \<le> 1 / 2"
  using round_half_even_ge [of x] round_half_even_le [of x] by linarith


lemma get_priotiry_fee_demo:
  "get_priotiry_fee (demo_eth rs) = Inr 4"
proof -
  have "to_double (of_int 8 / 2) = Some (of_int 8 / 2)"
    by (rule to_double_exact) simp
  then have "to_double 4 = Some 4"
    by simp
  then show ?thesis
    by (simp add: get_priotiry_fee_def demo_eth_def bind_exc_def true_divide_def py_round_def
        round_half_even_of_int [of 4, simplified])
qed

text \<open>
  C4, as the claim states it, fails: for the one-block window \<open>[[2 ^ 53 + 1]]\<close> the
  quotient \<^verbatim>\<open>sum / 1\<close> is the double \<open>2 ^ 53\<close>, so the estimator returns
  9007199254740992, at distance 1 from the mean 9007199254740993 of the window.
\<close>

theorem priority_fee_large_sample:
  "get_priotiry_fee ((demo_eth [])\<lparr>fee_history := Inr [[9007199254740993]]\<rparr>) =
     Inr 9007199254740992
   \<and> mean (non_zero_samples [[9007199254740993]]) = 9007199254740993"
proof -
  have "to_double (9007199254740993 / 1) = Some 9007199254740992"
    using to_double_above_2_53 by simp
  then show ?thesis
    by (simp add: get_priotiry_fee_def demo_eth_def bind_exc_def true_divide_def py_round_def
        mean_def non_zero_samples_def round_half_even_of_int [of 9007199254740992, simplified])
qed

text \<open>
  C4, amended. For every fee-history reward window whose blocks all carry a sample and
  whose non-zero samples sum to less than \<open>2 ^ 52\<close> in absolute value, the estimator
  returns the arithmetic mean of the non-zero samples rounded to the nearest integer
  (ties to even), hence an integer within one half of the mean; it returns 0, dividing by
  1, when the window is empty or every sample is zero.
\<close>

theorem priority_fee_is_rounded_mean:
  assumes "fee_history e = Inr reward"
      and "[] \<notin> set reward"
      and "\<bar>sum_list (non_zero_samples reward)\<bar> < 2 ^ 52"
  shows "get_priotiry_fee e =
           Inr (if non_zero_samples reward = [] then 0
                else round_half_even (mean (non_zero_samples reward)))
         \<and> (non_zero_samples reward \<noteq> [] \<longrightarrow>
              \<bar>of_int (round_half_even (mean (non_zero_samples reward))) -
                 mean (non_zero_samples reward)\<bar> \<le> 1 / 2)"
proof -
  define fees where "fees = non_zero_samples reward"
  define d where "d = max (int (length fees)) 1"
  have d: "0 < d" by (simp add: d_def)
  from to_double_divide [OF assms(3) [folded fees_def] d]
  obtain y where y: "to_double (of_int (sum_list fees) / of_int d) = Some y"
      "round_half_even y = round_half_even (of_int (sum_list fees) / of_int d)"
    by blast
  have "get_priotiry_fee e = Inr (round_half_even (of_int (sum_list fees) / of_int d))"
    using d y
    by (simp add: get_priotiry_fee_def assms(1) non_empty_block_priority_fees_eq [OF assms(2)]
        bind_exc_def true_divide_def py_round_def Let_def flip: fees_def d_def)
  moreover have "round_half_even (of_int (sum_list fees) / of_int d) = 0" if "fees = []"
    using that round_half_even_of_int [of 0] by (simp add: d_def)
  moreover have "of_int (sum_list fees) / of_int d = mean fees" if "fees \<noteq> []"
  proof -
    from that have "d = int (length fees)" by (cases fees) (simp_all add: d_def)
    then show ?thesis by (simp add: mean_def)
  qed
  ultimately show ?thesis
    using round_half_even_nearest [of "mean fees"] by (simp flip: fees_def)
qed

theorem priority_fee_is_rounded_mean_witness:
  "fee_history (demo_eth []) = Inr [[5], [0], [3], [0]]
   \<and> [] \<notin> set [[5], [0], [3], [0::int]]
   \<and> \<bar>sum_list (non_zero_samples [[5], [0], [3], [0]])\<bar> < 2 ^ 52
   \<and> non_zero_samples [[5], [0], [3], [0]] = [5, 3]
   \<and> mean [5, 3] = 4
   \<and> get_priotiry_fee (demo_eth []) = Inr 4"
proof -
  have a: "fee_history (demo_eth []) = Inr [[5], [0], [3], [0]]"
    by (simp add: demo_eth_def)
  have b: "[] \<notin> set [[5], [0], [3], [0::int]]"
    by simp
  have n: "non_zero_samples [[5], [0], [3], [0]] = [5, 3]"
    by (simp add: non_zero_samples_def)
  have c: "\<bar>sum_list (non_zero_samples [[5], [0], [3], [0]])\<bar> < 2 ^ 52"
    by (simp add: n)
  have m: "mean [5, 3] = 4"
    by (simp add: mean_def)
  from priority_fee_is_rounded_mean [OF a b c] a b c n m
    round_half_even_of_int [of 4]
  show ?thesis by simp
qed


section \<open>Properties of the transaction builder\<close>

lemma int_times_1_5_above_2_53:
  "int_times_1_5 9007199254740993 = Inr 13510798882111488"
proof -
  have a: "to_double (of_int 9007199254740993) = Some 9007199254740992"
    using to_double_above_2_53 by simp
  have b: "to_double (9007199254740992 * (3 / 2)) = Some 13510798882111488"
    by code_simp
  have c: "py_int_of_float 13510798882111488 = 13510798882111488"
    using floor_of_int [of 13510798882111488, where ?'a = rat]
    by (simp add: py_int_of_float_def)
  show ?thesis
    unfolding int_times_1_5_def py_float_of_int_def bind_exc_def
    by (simp only: a b c option.case sum.case)
qed

lemma demo_eth_fields:
  "get_transaction_count (demo_eth rs) a = Inr 7"
  "gas_price (demo_eth rs) = Inr 100"
  by (simp_all add: demo_eth_def)

text \<open>
  C5, as the claim states it, fails: on a network without priority-fee support and a gas
  price of \<open>2 ^ 53 + 1\<close> the builder stores the gas price 13510798882111488, while the
  price scaled by 1.5 and truncated is 13510798882111489.
\<close>

theorem gas_price_large:
  "prepare_transaction demo_legacy_client ((demo_eth [])\<lparr>gas_price := Inr 9007199254740993\<rparr>) 0 =
     Inr [(''from'', VStr ''0xme''), (''nonce'', VInt 7), (''value'', VInt 0),
          (''chainId'', VInt 1), (''gasPrice'', VInt 13510798882111488)]
   \<and> 3 * 9007199254740993 div 2 = (13510798882111489 :: int)"
proof -
  have "prepare_transaction demo_legacy_client
          ((demo_eth [])\<lparr>gas_price := Inr 9007199254740993\<rparr>) 0 =
     Inr [(''from'', VStr ''0xme''), (''nonce'', VInt 7), (''value'', VInt 0),
          (''chainId'', VInt 1), (''gasPrice'', VInt 13510798882111488)]"
    by (simp add: prepare_transaction_def demo_legacy_client_def demo_client_def
        demo_network_def demo_eth_def bind_exc_def int_times_1_5_above_2_53)
  moreover have "3 * 9007199254740993 div 2 = (13510798882111489 :: int)"
    by simp
  ultimately show ?thesis by (rule conjI)
qed

text \<open>
  C5, amended. Every transaction request the builder produces carries exactly one pricing
  shape, chosen by \<^verbatim>\<open>eip1559_support\<close> alone: when it is set, the entries
  \<^verbatim>\<open>maxPriorityFeePerGas\<close>, \<^verbatim>\<open>maxFeePerGas\<close> and \<^verbatim>\<open>type = '0x2'\<close> and no
  \<^verbatim>\<open>gasPrice\<close>; when it is not, only \<^verbatim>\<open>gasPrice\<close>, equal to \<^verbatim>\<open>int(gas_price * 1.5)\<close>
  as computed in double precision, which is the gas price scaled by 1.5 and truncated
  whenever the price is not negative and three times the price is below \<open>2 ^ 53\<close>.
\<close>

theorem pricing_shape_exclusive:
  assumes "prepare_transaction self e val = Inr tx_params"
  shows "(eip1559_support (network self) \<longrightarrow>
            (\<exists>p m. map_of tx_params ''maxPriorityFeePerGas'' = Some (VInt p) \<and>
                   map_of tx_params ''maxFeePerGas'' = Some (VInt m) \<and>
                   map_of tx_params ''type'' = Some (VStr ''0x2'') \<and>
                   map_of tx_params ''gasPrice'' = None))
       \<and> (\<not> eip1559_support (network self) \<longrightarrow>
            (\<exists>gp g. gas_price e = Inr gp \<and> int_times_1_5 gp = Inr g \<and>
                   map_of tx_params ''gasPrice'' = Some (VInt g) \<and>
                   (0 \<le> gp \<and> 3 * gp < 2 ^ 53 \<longrightarrow> g = 3 * gp div 2) \<and>
                   map_of tx_params ''maxPriorityFeePerGas'' = None \<and>
                   map_of tx_params ''maxFeePerGas'' = None \<and>
                   map_of tx_params ''type'' = None))"
proof (cases "eip1559_support (network self)")
  case True
  with assms show ?thesis
    by (auto simp: prepare_transaction_def bind_exc_def Let_def split: sum.splits)
next
  case False
  with assms obtain nonce gp g where
    "gas_price e = Inr gp" "int_times_1_5 gp = Inr g"
    "tx_params = [(''from'', VStr (address self)), (''nonce'', VInt nonce),
        (''value'', VInt val), (''chainId'', VInt (chain_id (network self))),
        (''gasPrice'', VInt g)]"
    by (auto simp: prepare_transaction_def bind_exc_def Let_def split: sum.splits)
  with False int_times_1_5_exact [of gp] show ?thesis
    by auto
qed

theorem pricing_shape_exclusive_witness:
  "prepare_transaction demo_client (demo_eth []) 0 =
     Inr [(''from'', VStr ''0xme''), (''nonce'', VInt 7), (''value'', VInt 0),
          (''chainId'', VInt 1), (''maxPriorityFeePerGas'', VInt 4),
          (''maxFeePerGas'', VInt 156), (''type'', VStr ''0x2'')]
   \<and> eip1559_support (network demo_client)
   \<and> prepare_transaction demo_legacy_client (demo_eth []) 0 =
     Inr [(''from'', VStr ''0xme''), (''nonce'', VInt 7), (''value'', VInt 0),
          (''chainId'', VInt 1), (''gasPrice'', VInt 150)]
   \<and> \<not> eip1559_support (network demo_legacy_client)
   \<and> (\<exists>gp g. gas_price (demo_eth []) = Inr gp \<and> int_times_1_5 gp = Inr g \<and>
         map_of [(''from'', VStr ''0xme''), (''nonce'', VInt 7), (''value'', VInt 0),
                 (''chainId'', VInt 1), (''gasPrice'', VInt 150)] ''gasPrice'' = Some (VInt g) \<and>
         (0 \<le> gp \<and> 3 * gp < 2 ^ 53 \<longrightarrow> g = 3 * gp div 2))"
proof -
  have t: "int_times_1_5 104 = Inr 156" "int_times_1_5 100 = Inr 150"
    using int_times_1_5_exact [of 104] int_times_1_5_exact [of 100] by simp_all
  have a: "prepare_transaction demo_client (demo_eth []) 0 =
     Inr [(''from'', VStr ''0xme''), (''nonce'', VInt 7), (''value'', VInt 0),
          (''chainId'', VInt 1), (''maxPriorityFeePerGas'', VInt 4),
          (''maxFeePerGas'', VInt 156), (''type'', VStr ''0x2'')]"
    by (simp add: prepare_transaction_def get_priotiry_fee_demo bind_exc_def t
        demo_client_def demo_network_def demo_eth_fields)
  have b: "prepare_transaction demo_legacy_client (demo_eth []) 0 =
     Inr [(''from'', VStr ''0xme''), (''nonce'', VInt 7), (''value'', VInt 0),
          (''chainId'', VInt 1), (''gasPrice'', VInt 150)]"
    by (simp add: prepare_transaction_def bind_exc_def t demo_legacy_client_def
        demo_client_def demo_network_def demo_eth_def)
  have c: "eip1559_support (network demo_client)"
    "\<not> eip1559_support (network demo_legacy_client)"
    by (simp_all add: demo_legacy_client_def demo_client_def demo_network_def)
  from pricing_shape_exclusive [OF a] pricing_shape_exclusive [OF b] a b c
  show ?thesis by simp
qed

lemma get_priotiry_fee_gas_price:
  "get_priotiry_fee (e\<lparr>gas_price := g\<rparr>) = get_priotiry_fee e"
  by (simp add: get_priotiry_fee_def)

text \<open>
  C6, as the claim states it, fails: with base fee 9007199254740989 and priority fee 4
  the sum is \<open>2 ^ 53 + 1\<close>, and the builder stores the maximum fee 13510798882111488,
  while the sum scaled by 1.5 and truncated is 13510798882111489.
\<close>

theorem max_fee_large_sum:
  "prepare_transaction demo_client ((demo_eth [])\<lparr>gas_price := Inr 9007199254740989\<rparr>) 0 =
     Inr [(''from'', VStr ''0xme''), (''nonce'', VInt 7), (''value'', VInt 0),
          (''chainId'', VInt 1), (''maxPriorityFeePerGas'', VInt 4),
          (''maxFeePerGas'', VInt 13510798882111488), (''type'', VStr ''0x2'')]
   \<and> 3 * (9007199254740989 + 4) div 2 = (13510798882111489 :: int)"
proof -
  have p: "get_priotiry_fee ((demo_eth [])\<lparr>gas_price := Inr 9007199254740989\<rparr>) = Inr 4"
    by (simp only: get_priotiry_fee_gas_price get_priotiry_fee_demo)
  have f: "get_transaction_count ((demo_eth [])\<lparr>gas_price := Inr 9007199254740989\<rparr>) a = Inr 7"
    "gas_price ((demo_eth [])\<lparr>gas_price := Inr 9007199254740989\<rparr>) = Inr 9007199254740989"
    for a
    by (simp_all add: demo_eth_def)
  have "prepare_transaction demo_client
          ((demo_eth [])\<lparr>gas_price := Inr 9007199254740989\<rparr>) 0 =
     Inr [(''from'', VStr ''0xme''), (''nonce'', VInt 7), (''value'', VInt 0),
          (''chainId'', VInt 1), (''maxPriorityFeePerGas'', VInt 4),
          (''maxFeePerGas'', VInt 13510798882111488), (''type'', VStr ''0x2'')]"
    by (simp add: prepare_transaction_def p f demo_eth_fields bind_exc_def
        int_times_1_5_above_2_53 demo_client_def demo_network_def)
  moreover have "3 * (9007199254740989 + 4) div 2 = (13510798882111489 :: int)"
    by simp
  ultimately show ?thesis by (rule conjI)
qed

text \<open>
  C6, amended. When the builder produces a priority-fee transaction from the base fee
  \<open>b\<close> and the priority fee \<open>p\<close>, \<^verbatim>\<open>maxPriorityFeePerGas\<close> is \<open>p\<close> and
  \<^verbatim>\<open>maxFeePerGas\<close> is \<^verbatim>\<open>int((b + p) * 1.5)\<close> as computed in double precision on the
  sum; whenever the sum is not negative and three times the sum is below \<open>2 ^ 53\<close>, that
  is the sum scaled by 1.5 and truncated to an integer, \<open>3 * (b + p) div 2\<close>.
\<close>

theorem max_fee_is_scaled_sum:
  assumes "prepare_transaction self e val = Inr tx_params"
      and "eip1559_support (network self)"
      and "gas_price e = Inr b"
      and "get_priotiry_fee e = Inr p"
  shows "map_of tx_params ''maxPriorityFeePerGas'' = Some (VInt p)
       \<and> (\<exists>m. int_times_1_5 (b + p) = Inr m \<and>
               map_of tx_params ''maxFeePerGas'' = Some (VInt m))
       \<and> (0 \<le> b + p \<and> 3 * (b + p) < 2 ^ 53 \<longrightarrow>
            map_of tx_params ''maxFeePerGas'' = Some (VInt (3 * (b + p) div 2)))"
proof -
  from assms obtain m where m: "int_times_1_5 (b + p) = Inr m"
    "map_of tx_params ''maxFeePerGas'' = Some (VInt m)"
    "map_of tx_params ''maxPriorityFeePerGas'' = Some (VInt p)"
    by (auto simp: prepare_transaction_def bind_exc_def Let_def split: sum.splits)
  moreover have "m = 3 * (b + p) div 2" if "0 \<le> b + p" "3 * (b + p) < 2 ^ 53"
    using int_times_1_5_exact [OF that] m(1) by simp
  ultimately show ?thesis by auto
qed

theorem max_fee_is_scaled_sum_witness:
  "prepare_transaction demo_client (demo_eth []) 0 =
     Inr [(''from'', VStr ''0xme''), (''nonce'', VInt 7), (''value'', VInt 0),
          (''chainId'', VInt 1), (''maxPriorityFeePerGas'', VInt 4),
          (''maxFeePerGas'', VInt 156), (''type'', VStr ''0x2'')]
   \<and> eip1559_support (network demo_client)
   \<and> gas_price (demo_eth []) = Inr 100
   \<and> get_priotiry_fee (demo_eth []) = Inr 4
   \<and> (0::int) \<le> 100 + 4 \<and> 3 * (100 + 4) < (2::int) ^ 53
   \<and> 3 * (100 + 4) div 2 = (156::int)
   \<and> map_of [(''from'', VStr ''0xme''), (''nonce'', VInt 7), (''value'', VInt 0),
             (''chainId'', VInt 1), (''maxPriorityFeePerGas'', VInt 4),
             (''maxFeePerGas'', VInt 156), (''type'', VStr ''0x2'')] ''maxFeePerGas'' =
       Some (VInt (3 * (100 + 4) div 2))"
proof -
  have t: "int_times_1_5 104 = Inr 156"
    using int_times_1_5_exact [of 104] by simp
  have a: "prepare_transaction demo_client (demo_eth []) 0 =
     Inr [(''from'', VStr ''0xme''), (''nonce'', VInt 7), (''value'', VInt 0),
          (''chainId'', VInt 1), (''maxPriorityFeePerGas'', VInt 4),
          (''maxFeePerGas'', VInt 156), (''type'', VStr ''0x2'')]"
    by (simp add: prepare_transaction_def get_priotiry_fee_demo bind_exc_def t
        demo_client_def demo_network_def demo_eth_fields)
  have c: "eip1559_support (network demo_client)"
    by (simp add: demo_client_def demo_network_def)
  have g: "gas_price (demo_eth []) = Inr 100"
    by (simp add: demo_eth_def)
  from max_fee_is_scaled_sum [OF a c g get_priotiry_fee_demo] a c g get_priotiry_fee_demo
  show ?thesis by simp
qed

end
